theory Spec2Isabelle
  imports Main
begin

section \<open>Text and decoded JSON values\<close>

text \<open>
  A Python \<open>str\<close> is a sequence of Unicode code points, so text is a list of code
  points here. \<open>lit\<close> embeds an ASCII literal of the source.
\<close>

type_synonym ustr = "nat list"

definition lit :: "string \<Rightarrow> ustr" where
  "lit s = map of_char s"

text \<open>\<open>s.startswith(p)\<close> and the substring test \<open>p in s\<close>.\<close>

fun startswith :: "ustr \<Rightarrow> ustr \<Rightarrow> bool" where
  "startswith s [] = True"
| "startswith [] (p # ps) = False"
| "startswith (c # cs) (p # ps) = (c = p \<and> startswith cs ps)"

fun contains :: "ustr \<Rightarrow> ustr \<Rightarrow> bool" where
  "contains p [] = (p = [])"
| "contains p (c # cs) = (startswith (c # cs) p \<or> contains p cs)"

text \<open>
  What \<open>response.json()\<close> returns: \<open>None\<close>, \<open>bool\<close>, \<open>int\<close>, \<open>str\<close>, \<open>list\<close>
  and \<open>dict\<close> (an association list; the first entry of a key is the one a lookup finds).
  Numbers with a fraction are outside the model.
\<close>

datatype json =
    JNull
  | JBool bool
  | JInt int
  | JStr ustr
  | JArr "json list"
  | JObj "(ustr \<times> json) list"

datatype exn =
    AttributeError | TypeError | IndexError | RequestException | ConversionError
  | UnicodeEncodeError

text \<open>Python truthiness, as \<open>not x\<close> and \<open>if x:\<close> test it.\<close>

fun truthy :: "json \<Rightarrow> bool" where
  "truthy JNull = False"
| "truthy (JBool b) = b"
| "truthy (JInt i) = (i \<noteq> 0)"
| "truthy (JStr s) = (s \<noteq> [])"
| "truthy (JArr xs) = (xs \<noteq> [])"
| "truthy (JObj kvs) = (kvs \<noteq> [])"

text \<open>
  \<open>d.get(k, default)\<close>. Only a \<open>dict\<close> has the method: on any other value the
  attribute lookup raises \<open>AttributeError\<close>.
\<close>

fun py_get :: "json \<Rightarrow> ustr \<Rightarrow> json \<Rightarrow> exn + json" where
  "py_get (JObj kvs) k d = Inr (case map_of kvs k of Some v \<Rightarrow> v | None \<Rightarrow> d)"
| "py_get _ k d = Inl AttributeError"

text \<open>
  Keys of the cache dictionary. \<open>True == 1\<close> and \<open>False == 0\<close> hash alike, so a
  \<open>bool\<close> is the same key as its integer; a \<open>list\<close> or \<open>dict\<close> is unhashable.
\<close>

datatype key = KNone | KInt int | KStr ustr

fun key_of :: "json \<Rightarrow> key option" where
  "key_of JNull = Some KNone"
| "key_of (JBool b) = Some (KInt (if b then 1 else 0))"
| "key_of (JInt i) = Some (KInt i)"
| "key_of (JStr s) = Some (KStr s)"
| "key_of (JArr xs) = None"
| "key_of (JObj kvs) = None"

text \<open>Decimal digits of a natural number, most significant first.\<close>

fun dec :: "nat \<Rightarrow> ustr" where
  "dec n = (if n < 10 then [48 + n] else dec (n div 10) @ [48 + n mod 10])"

declare dec.simps [simp del]

text \<open>
  \<open>str(x)\<close>, which an f-string applies to each field. The \<open>repr\<close> of a list or
  a dict is the parameter \<open>rp\<close>.
\<close>

fun py_str :: "(json \<Rightarrow> ustr) \<Rightarrow> json \<Rightarrow> ustr" where
  "py_str rp JNull = lit ''None''"
| "py_str rp (JBool b) = (if b then lit ''True'' else lit ''False'')"
| "py_str rp (JInt i) = (if i < 0 then 45 # dec (nat (- i)) else dec (nat i))"
| "py_str rp (JStr s) = s"
| "py_str rp (JArr xs) = rp (JArr xs)"
| "py_str rp (JObj kvs) = rp (JObj kvs)"

section \<open>The libraries and the remote service\<close>

text \<open>The fields of \<open>urllib.parse.ParseResult\<close>.\<close>

record parse_result =
  scheme :: ustr
  netloc :: ustr
  path :: ustr
  params :: ustr
  query :: ustr
  fragment :: ustr

text \<open>
  The outcome of \<open>session.get(url)\<close>: the call raises a
  \<open>requests.exceptions.RequestException\<close> (no connection, timeout, ...), or it returns a
  response with a status code and a body. The body is \<open>None\<close> when it is not JSON, in
  which case \<open>response.json()\<close> raises \<open>requests.exceptions.JSONDecodeError\<close>, a
  \<open>RequestException\<close> too.
\<close>

datatype http_outcome = Raises | Responds nat "json option"

text \<open>
  Everything the program takes from outside its own source: the library functions it
  calls, the remote service and the process environment. Theorems hold for every value of
  these parameters.
  \<^item> \<open>urlparse\<close>: \<open>urllib.parse.urlparse\<close>; \<open>None\<close> when it raises \<open>ValueError\<close>.
  \<^item> \<open>parse_qs\<close>: \<open>urllib.parse.parse_qs\<close>, the dictionary from a parameter name to
    the list of its values.
  \<^item> \<open>unicode_digit\<close>: the characters of Unicode category Nd beyond \<open>0\<close>..\<open>9\<close>;
    the pattern \<open>\d\<close> of \<open>re\<close> matches them as well.
  \<^item> \<open>py_repr\<close>: \<open>repr\<close> of a list or dict.
  \<^item> \<open>markdownify\<close>: \<open>markdownify(html, heading_style="ATX")\<close>.
  \<^item> \<open>session_get n url\<close>: how the service answers the request for \<open>url\<close> that is
    the \<open>n\<close>-th request of the run (counted from 0).
  \<^item> \<open>api_token\<close>, \<open>user_name\<close>: \<open>os.getenv\<close> of the two credentials after
    \<open>load_dotenv()\<close>.
  \<^item> \<open>urls_txt\<close>: the lines that iterating over \<open>urls.txt\<close> yields; \<open>None\<close> when
    opening it raises \<open>FileNotFoundError\<close> (the one error of the file that \<open>main\<close>
    handles; a file that cannot be read or decoded is outside the model).
\<close>

record env =
  urlparse :: "ustr \<Rightarrow> parse_result option"
  parse_qs :: "ustr \<Rightarrow> ustr \<rightharpoonup> ustr list"
  unicode_digit :: "nat \<Rightarrow> bool"
  py_repr :: "json \<Rightarrow> ustr"
  markdownify :: "json \<Rightarrow> exn + ustr"
  session_get :: "nat \<Rightarrow> ustr \<Rightarrow> http_outcome"
  api_token :: "ustr option"
  user_name :: "ustr option"
  urls_txt :: "ustr list option"

section \<open>parse_confluence_url\<close>

text \<open>The pattern \<open>\d\<close> on a \<open>str\<close>: a Unicode decimal digit.\<close>

definition re_digit :: "env \<Rightarrow> nat \<Rightarrow> bool" where
  "re_digit E c \<longleftrightarrow> (48 \<le> c \<and> c \<le> 57) \<or> unicode_digit E c"

text \<open>
  The pattern \<open>/pages/(\d+)\<close> matched at the start of \<open>s\<close>; the result is group 1. The
  quantifier is greedy and nothing follows it, so the group is the longest run of digits.
\<close>

definition match_pages :: "env \<Rightarrow> ustr \<Rightarrow> ustr option" where
  "match_pages E s =
     (if startswith s (lit ''/pages/'')
      then (case takeWhile (re_digit E) (drop 7 s) of [] \<Rightarrow> None | d # ds \<Rightarrow> Some (d # ds))
      else None)"

text \<open>\<open>re.search\<close>: the match at the leftmost position that has one.\<close>

fun re_search_pages :: "env \<Rightarrow> ustr \<Rightarrow> ustr option" where
  "re_search_pages E [] = None"
| "re_search_pages E (c # cs) =
     (case match_pages E (c # cs) of
        Some g \<Rightarrow> Some g
      | None \<Rightarrow> re_search_pages E cs)"

text \<open>
  For stating where a match is: at offset \<open>n\<close> of \<open>s\<close> stands \<open>/pages/\<close> followed by
  a digit.
\<close>

definition pages_at :: "env \<Rightarrow> ustr \<Rightarrow> nat \<Rightarrow> bool" where
  "pages_at E s n \<longleftrightarrow>
     startswith (drop n s) (lit ''/pages/'')
     \<and> (case drop 7 (drop n s) of [] \<Rightarrow> False | d # _ \<Rightarrow> re_digit E d)"

datatype parse_failure = No_page_id | Parse_exception

text \<open>
  \<open>Inr (base_url, page_id)\<close> is the returned pair; \<open>Inl\<close> stands for the pair
  \<open>(None, None)\<close> and tells which of the two messages was printed. An exception inside
  the \<open>try\<close> (\<open>ValueError\<close> from \<open>urlparse\<close>, \<open>IndexError\<close> from \<open>[0]\<close> on an empty
  list) is caught by \<open>except Exception\<close>.
\<close>

definition parse_confluence_url :: "env \<Rightarrow> ustr \<Rightarrow> parse_failure + (ustr \<times> ustr)" where
  "parse_confluence_url E url =
     (case urlparse E url of
        None \<Rightarrow> Inl Parse_exception
      | Some parsed_url \<Rightarrow>
          let base_url = scheme parsed_url @ lit ''://'' @ netloc parsed_url @ lit ''/wiki'';
              by_path = (case re_search_pages E (path parsed_url) of
                           Some page_id \<Rightarrow> Inr (base_url, page_id)
                         | None \<Rightarrow> Inl No_page_id)
          in if contains (lit ''viewpage.action'') (path parsed_url)
             then (case parse_qs E (query parsed_url) (lit ''pageId'') of
                     None \<Rightarrow> by_path
                   | Some [] \<Rightarrow> Inl Parse_exception
                   | Some (page_id # _) \<Rightarrow>
                       if page_id \<noteq> [] then Inr (base_url, page_id) else by_path)
             else by_path)"

section \<open>State of a run\<close>

text \<open>
  A request is logged with the URL it asks for; a user lookup also with the account id it
  was issued for. A line printed to the console is recorded by its kind and its arguments,
  not by its wording.
\<close>

datatype request = Get_page ustr | Get_user json ustr

datatype notice =
    Page_fetch_failed
  | User_lookup_failed json nat
  | Page_id_not_found ustr
  | Url_parse_error ustr
  | Block_appended ustr json
  | Page_unavailable ustr
  | Missing_credentials
  | Url_file_not_found
  | No_urls_given

text \<open>
  \<open>sent\<close>: the requests issued so far, oldest first. \<open>cache\<close>: the dictionary handed to
  \<open>get_display_name\<close>. \<open>written\<close>: the strings passed to \<open>md_file.write\<close>, in order;
  the file is opened for appending, so its content grows by their concatenation.
  \<open>console\<close>: what was printed. Of the failures of a write, the one of the encoder is
  modelled (see \<open>utf8_encodable\<close>), those of the disk are not; printing is taken to
  succeed.
\<close>

record state =
  sent :: "request list"
  cache :: "key \<rightharpoonup> json"
  written :: "ustr list"
  console :: "notice list"

definition fresh :: state where
  "fresh = \<lparr>sent = [], cache = Map.empty, written = [], console = []\<rparr>"

definition say :: "notice \<Rightarrow> state \<Rightarrow> state" where
  "say n s = s\<lparr>console := console s @ [n]\<rparr>"

definition request :: "request \<Rightarrow> state \<Rightarrow> state" where
  "request r s = s\<lparr>sent := sent s @ [r]\<rparr>"

section \<open>get_page\<close>

definition page_url :: "ustr \<Rightarrow> ustr \<Rightarrow> ustr" where
  "page_url base_url page_id =
     base_url @ lit ''/rest/api/content/'' @ page_id @ lit ''?expand=''
       @ lit ''body.storage,version,ancestors,history.createdBy,space''"

text \<open>
  \<open>raise_for_status\<close> raises \<open>HTTPError\<close> for a status from 400 to 599. Every
  \<open>RequestException\<close> of the \<open>try\<close> block is caught and \<open>None\<close> is returned.
\<close>

definition get_page :: "env \<Rightarrow> ustr \<Rightarrow> ustr \<Rightarrow> state \<Rightarrow> json \<times> state" where
  "get_page E page_id base_url s =
     (let url = page_url base_url page_id;
          s1 = request (Get_page url) s
      in case session_get E (length (sent s)) url of
           Raises \<Rightarrow> (JNull, say Page_fetch_failed s1)
         | Responds status body \<Rightarrow>
             if 400 \<le> status \<and> status < 600 then (JNull, say Page_fetch_failed s1)
             else (case body of
                     None \<Rightarrow> (JNull, say Page_fetch_failed s1)
                   | Some page \<Rightarrow> (page, s1)))"

section \<open>get_display_name\<close>

text \<open>The literal the source returns for a missing account id (Japanese for "unknown creator").\<close>

definition unknown_creator :: ustr where
  "unknown_creator = [0x4E0D, 0x660E, 0x306A, 0x4F5C, 0x6210, 0x8005]"

definition user_url :: "env \<Rightarrow> ustr \<Rightarrow> json \<Rightarrow> ustr" where
  "user_url E base_url account_id =
     base_url @ lit ''/rest/api/user?accountId='' @ py_str (py_repr E) account_id"

text \<open>
  \<open>account_id in cache\<close> hashes the id, which raises \<open>TypeError\<close> for a list or dict.
  Nothing is caught here: an exception of \<open>session.get\<close>, of \<open>response.json()\<close> or of
  \<open>.get\<close> on a body that is not an object leaves the function.
\<close>

definition get_display_name :: "env \<Rightarrow> json \<Rightarrow> ustr \<Rightarrow> state \<Rightarrow> (exn + json) \<times> state" where
  "get_display_name E account_id base_url s =
     (if \<not> truthy account_id then (Inr (JStr unknown_creator), s)
      else
       (case key_of account_id of
          None \<Rightarrow> (Inl TypeError, s)
        | Some k \<Rightarrow>
           (case cache s k of
              Some v \<Rightarrow> (Inr v, s)
            | None \<Rightarrow>
               (let url = user_url E base_url account_id;
                    s1 = request (Get_user account_id url) s
                in (case session_get E (length (sent s)) url of
                      Raises \<Rightarrow> (Inl RequestException, s1)
                    | Responds status body \<Rightarrow>
                       (if status = 200
                        then (case body of
                                None \<Rightarrow> (Inl RequestException, s1)
                              | Some j \<Rightarrow>
                                 (case py_get j (lit ''displayName'') account_id of
                                    Inl e \<Rightarrow> (Inl e, s1)
                                  | Inr display_name \<Rightarrow>
                                      (Inr display_name,
                                       s1\<lparr>cache := (cache s1)(k \<mapsto> display_name)\<rparr>)))
                        else (Inr account_id,
                              say (User_lookup_failed account_id status) s1)))))))"

section \<open>process_pages_from_urls\<close>

definition space_label :: ustr where
  "space_label = [0x30B9, 0x30DA, 0x30FC, 0x30B9] @ lit '': ''"

definition creator_label :: ustr where
  "creator_label = [0x4F5C, 0x6210, 0x8005] @ lit '': ''"

definition updated_label :: ustr where
  "updated_label = [0x6700, 0x7D42, 0x66F4, 0x65B0, 0x65E5] @ lit '': ''"

text \<open>The assembly of \<open>markdown_content\<close> (lines 141 to 146); 10 is the newline.\<close>

definition markdown_content ::
  "env \<Rightarrow> json \<Rightarrow> json \<Rightarrow> json \<Rightarrow> json \<Rightarrow> json \<Rightarrow> ustr \<Rightarrow> ustr" where
  "markdown_content E page_title page_link space_name creator_display_name last_updated
       text_content =
     (lit ''# '' @ py_str (py_repr E) page_title @ [10])
     @ (lit ''URL: '' @ py_str (py_repr E) page_link @ [10])
     @ (space_label @ py_str (py_repr E) space_name @ [10])
     @ (creator_label @ py_str (py_repr E) creator_display_name @ [10])
     @ (updated_label @ py_str (py_repr E) last_updated @ [10, 10])
     @ (text_content @ [10, 10])"

text \<open>\<open>a.get(k1, {}).get(k2, d)\<close>.\<close>

definition py_get2 :: "json \<Rightarrow> ustr \<Rightarrow> ustr \<Rightarrow> json \<Rightarrow> exn + json" where
  "py_get2 a k1 k2 d =
     (case py_get a k1 (JObj []) of Inl e \<Rightarrow> Inl e | Inr b \<Rightarrow> py_get b k2 d)"

text \<open>
  The file is opened with \<open>encoding='utf-8'\<close>, and \<open>md_file.write\<close> encodes its argument
  before anything reaches the file: for a text that holds a surrogate code point (a JSON
  string can, by an escape such as \<open>\ud800\<close>) it raises \<open>UnicodeEncodeError\<close> and nothing
  is appended.
\<close>

definition utf8_encodable :: "ustr \<Rightarrow> bool" where
  "utf8_encodable t \<longleftrightarrow> list_all (\<lambda>c. \<not> (0xD800 \<le> c \<and> c \<le> 0xDFFF)) t"

text \<open>
  The body of \<open>if page:\<close> (lines 126 to 152), statement by statement. The first
  component is the exception that leaves it, if any.
\<close>

definition process_page :: "env \<Rightarrow> ustr \<Rightarrow> ustr \<Rightarrow> json \<Rightarrow> state \<Rightarrow> exn option \<times> state" where
  "process_page E url base_url page s =
     (case py_get2 page (lit ''body'') (lit ''storage'') (JObj []) of
        Inl e \<Rightarrow> (Some e, s)
      | Inr storage \<Rightarrow>
     (case py_get storage (lit ''value'') (JStr []) of
        Inl e \<Rightarrow> (Some e, s)
      | Inr page_contents \<Rightarrow>
     (case markdownify E page_contents of
        Inl e \<Rightarrow> (Some e, s)
      | Inr text_content \<Rightarrow>
     (case py_get2 page (lit ''history'') (lit ''createdBy'') (JObj []) of
        Inl e \<Rightarrow> (Some e, s)
      | Inr creator \<Rightarrow>
     (case py_get creator (lit ''accountId'') JNull of
        Inl e \<Rightarrow> (Some e, s)
      | Inr creator_account_id \<Rightarrow>
     (case get_display_name E creator_account_id base_url s of
        (Inl e, s1) \<Rightarrow> (Some e, s1)
      | (Inr creator_display_name, s1) \<Rightarrow>
     (case py_get page (lit ''title'') (JStr (lit ''No Title'')) of
        Inl e \<Rightarrow> (Some e, s1)
      | Inr page_title \<Rightarrow>
     (case py_get page (lit ''space'') (JObj []) of
        Inl e \<Rightarrow> (Some e, s1)
      | Inr space_info \<Rightarrow>
     (case py_get space_info (lit ''key'') JNull of
        Inl e \<Rightarrow> (Some e, s1)
      | Inr space_key \<Rightarrow>
     (case py_get space_info (lit ''name'') space_key of
        Inl e \<Rightarrow> (Some e, s1)
      | Inr space_name \<Rightarrow>
     (case py_get2 page (lit ''_links'') (lit ''webui'') (JStr url) of
        Inl e \<Rightarrow> (Some e, s1)
      | Inr page_link \<Rightarrow>
     (case py_get2 page (lit ''version'') (lit ''friendlyWhen'') (JStr (lit ''N/A'')) of
        Inl e \<Rightarrow> (Some e, s1)
      | Inr last_updated \<Rightarrow>
          (let content = markdown_content E page_title page_link space_name
                           creator_display_name last_updated text_content
           in if utf8_encodable content
              then (None, say (Block_appended content page_title)
                            (s1\<lparr>written := written s1 @ [content]\<rparr>))
              else (Some UnicodeEncodeError, s1))))))))))))))"

text \<open>
  For stating what a page holds. \<open>page_reads\<close>: the reads of lines 126 to 139 all
  succeed, and these are the values they give. \<open>has_field page k1 k2\<close>: the page is an
  object whose \<open>k1\<close> is an object that has the key \<open>k2\<close>; a page lacks the field
  \<open>k1.k2\<close> when this is false.
\<close>

definition page_reads ::
  "ustr \<Rightarrow> json \<Rightarrow> json \<Rightarrow> json \<Rightarrow> json \<Rightarrow> json \<Rightarrow> json \<Rightarrow> json \<Rightarrow> bool" where
  "page_reads url page page_contents creator_account_id page_title space_name page_link
       last_updated \<longleftrightarrow>
     (\<exists>storage. py_get2 page (lit ''body'') (lit ''storage'') (JObj []) = Inr storage
        \<and> py_get storage (lit ''value'') (JStr []) = Inr page_contents)
     \<and> (\<exists>creator. py_get2 page (lit ''history'') (lit ''createdBy'') (JObj []) = Inr creator
        \<and> py_get creator (lit ''accountId'') JNull = Inr creator_account_id)
     \<and> py_get page (lit ''title'') (JStr (lit ''No Title'')) = Inr page_title
     \<and> (\<exists>space_info space_key. py_get page (lit ''space'') (JObj []) = Inr space_info
        \<and> py_get space_info (lit ''key'') JNull = Inr space_key
        \<and> py_get space_info (lit ''name'') space_key = Inr space_name)
     \<and> py_get2 page (lit ''_links'') (lit ''webui'') (JStr url) = Inr page_link
     \<and> py_get2 page (lit ''version'') (lit ''friendlyWhen'') (JStr (lit ''N/A'')) = Inr last_updated"


text \<open>One iteration of \<open>for url in page_urls\<close>.\<close>

definition process_url :: "env \<Rightarrow> ustr \<Rightarrow> state \<Rightarrow> exn option \<times> state" where
  "process_url E url s =
     (case parse_confluence_url E url of
        Inl No_page_id \<Rightarrow> (None, say (Page_id_not_found url) s)
      | Inl Parse_exception \<Rightarrow> (None, say (Url_parse_error url) s)
      | Inr (base_url, page_id) \<Rightarrow>
          if page_id = [] \<or> base_url = [] then (None, s)
          else (case get_page E page_id base_url s of
                  (page, s1) \<Rightarrow>
                    if truthy page then process_page E url base_url page s1
                    else (None, say (Page_unavailable url) s1)))"

text \<open>The loop: an exception ends it, and the rest of the list is not looked at.\<close>

fun process_loop :: "env \<Rightarrow> ustr list \<Rightarrow> state \<Rightarrow> exn option \<times> state" where
  "process_loop E [] s = (None, s)"
| "process_loop E (url # urls) s =
     (case process_url E url s of
        (Some e, s1) \<Rightarrow> (Some e, s1)
      | (None, s1) \<Rightarrow> process_loop E urls s1)"

text \<open>
  \<open>user_cache = {}\<close>, then the loop. The name of the output file (from the clock) and the
  creation of its directory have no part in what is written and are not modelled.
\<close>

definition process_pages_from_urls :: "env \<Rightarrow> ustr list \<Rightarrow> state \<Rightarrow> exn option \<times> state" where
  "process_pages_from_urls E page_urls s = process_loop E page_urls (s\<lparr>cache := Map.empty\<rparr>)"

section \<open>main\<close>

text \<open>The characters \<open>str.strip()\<close> removes: those for which \<open>str.isspace\<close> holds.\<close>

definition py_isspace :: "nat \<Rightarrow> bool" where
  "py_isspace c \<longleftrightarrow>
     (9 \<le> c \<and> c \<le> 13) \<or> (28 \<le> c \<and> c \<le> 32) \<or> c = 0x85 \<or> c = 0xA0 \<or> c = 0x1680
     \<or> (0x2000 \<le> c \<and> c \<le> 0x200A) \<or> c = 0x2028 \<or> c = 0x2029 \<or> c = 0x202F
     \<or> c = 0x205F \<or> c = 0x3000"

definition py_strip :: "ustr \<Rightarrow> ustr" where
  "py_strip s = rev (dropWhile py_isspace (rev (dropWhile py_isspace s)))"

text \<open>\<open>not x\<close> for the result of \<open>os.getenv\<close>: the variable is unset or empty.\<close>

definition unset :: "ustr option \<Rightarrow> bool" where
  "unset v = (case v of None \<Rightarrow> True | Some x \<Rightarrow> x = [])"

definition main :: "env \<Rightarrow> state \<Rightarrow> exn option \<times> state" where
  "main E s =
     (if unset (api_token E) \<or> unset (user_name E) then (None, say Missing_credentials s)
      else (case urls_txt E of
              None \<Rightarrow> (None, say Url_file_not_found s)
            | Some f \<Rightarrow>
                let page_urls = map py_strip (filter (\<lambda>line. py_strip line \<noteq> []) f)
                in if page_urls = [] then (None, say No_urls_given s)
                   else process_pages_from_urls E page_urls s))"

section \<open>Lookups in the request log\<close>

text \<open>
  For stating how often an account id is looked up. Request number \<open>i\<close> of the log is a
  successful lookup when it is a user lookup that the service answers with status 200 and
  a JSON object: these are the answers after which \<open>get_display_name\<close> writes the cache.
  \<open>lookup_key\<close> is the cache key of the account id a lookup was issued for.
\<close>

definition lookup_ok :: "env \<Rightarrow> nat \<Rightarrow> request \<Rightarrow> bool" where
  "lookup_ok E i r =
     (case r of
        Get_page url \<Rightarrow> False
      | Get_user a url \<Rightarrow>
          (case session_get E i url of
             Responds status (Some (JObj kvs)) \<Rightarrow> status = 200
           | _ \<Rightarrow> False))"

definition lookup_key :: "request \<Rightarrow> key option" where
  "lookup_key r = (case r of Get_page url \<Rightarrow> None | Get_user a url \<Rightarrow> key_of a)"

text \<open>No request after a successful lookup is a lookup for the same account id.\<close>

definition no_lookup_after_success :: "env \<Rightarrow> request list \<Rightarrow> bool" where
  "no_lookup_after_success E rs \<longleftrightarrow>
     (\<forall>j\<in>{..<length rs}. \<forall>i\<in>{..<j}.
        lookup_ok E i (rs ! i) \<longrightarrow> lookup_key (rs ! j) \<noteq> lookup_key (rs ! i))"

text \<open>The account id of every successful lookup of the log is in the cache.\<close>

definition cache_covers :: "env \<Rightarrow> state \<Rightarrow> bool" where
  "cache_covers E s \<longleftrightarrow>
     (\<forall>i\<in>{..<length (sent s)}.
        lookup_ok E i (sent s ! i) \<longrightarrow>
          (\<exists>k. lookup_key (sent s ! i) = Some k \<and> cache s k \<noteq> None))"

definition cache_inv :: "env \<Rightarrow> state \<Rightarrow> bool" where
  "cache_inv E s \<longleftrightarrow> cache_covers E s \<and> no_lookup_after_success E (sent s)"

section \<open>A plain instance of the libraries\<close>

text \<open>
  For the examples only. \<open>urlparse_plain\<close> follows the steps of \<open>urlsplit\<close> (scheme up
  to the first colon, network location after \<open>//\<close> up to the next \<open>/\<close>, \<open>?\<close> or \<open>#\<close>,
  then fragment, then query) and \<open>parse_qs_plain\<close> those of \<open>parse_qsl\<close> (pieces between
  \<open>&\<close>, name and value around the first \<open>=\<close>, blank values dropped). They agree with
  the library on printable ASCII text that has no \<open>;\<close>, \<open>[\<close>, \<open>]\<close>, \<open>%\<close> or \<open>+\<close>: no
  stripping, no bracket check, no decoding is done here.
\<close>

definition scheme_char :: "nat \<Rightarrow> bool" where
  "scheme_char c \<longleftrightarrow>
     (97 \<le> c \<and> c \<le> 122) \<or> (65 \<le> c \<and> c \<le> 90) \<or> (48 \<le> c \<and> c \<le> 57)
     \<or> c = 43 \<or> c = 45 \<or> c = 46"

definition ascii_lower :: "nat \<Rightarrow> nat" where
  "ascii_lower c = (if 65 \<le> c \<and> c \<le> 90 then c + 32 else c)"

definition before :: "nat \<Rightarrow> ustr \<Rightarrow> ustr" where
  "before c s = takeWhile (\<lambda>x. x \<noteq> c) s"

definition after :: "nat \<Rightarrow> ustr \<Rightarrow> ustr" where
  "after c s = drop 1 (dropWhile (\<lambda>x. x \<noteq> c) s)"

definition urlparse_plain :: "ustr \<Rightarrow> parse_result option" where
  "urlparse_plain url =
     (let has_scheme = (58 \<in> set url \<and> before 58 url \<noteq> []
                        \<and> (97 \<le> ascii_lower (hd url) \<and> ascii_lower (hd url) \<le> 122)
                        \<and> list_all scheme_char (before 58 url));
          sch = (if has_scheme then map ascii_lower (before 58 url) else []);
          url1 = (if has_scheme then after 58 url else url);
          has_netloc = startswith url1 (lit ''//'');
          loc = (if has_netloc
                 then takeWhile (\<lambda>x. x \<noteq> 47 \<and> x \<noteq> 63 \<and> x \<noteq> 35) (drop 2 url1) else []);
          url2 = (if has_netloc
                  then dropWhile (\<lambda>x. x \<noteq> 47 \<and> x \<noteq> 63 \<and> x \<noteq> 35) (drop 2 url1) else url1);
          url3 = before 35 url2
      in Some \<lparr>scheme = sch, netloc = loc, path = before 63 url3, params = [],
               query = after 63 url3, fragment = after 35 url2\<rparr>)"

fun split_on :: "nat \<Rightarrow> ustr \<Rightarrow> ustr list" where
  "split_on c [] = [[]]"
| "split_on c (x # xs) =
     (if x = c then [] # split_on c xs
      else (case split_on c xs of [] \<Rightarrow> [[x]] | p # ps \<Rightarrow> (x # p) # ps))"

definition parse_qs_plain :: "ustr \<Rightarrow> ustr \<rightharpoonup> ustr list" where
  "parse_qs_plain qs name =
     (case filter (\<lambda>v. v \<noteq> [])
             (map (after 61) (filter (\<lambda>piece. before 61 piece = name) (split_on 38 qs))) of
        [] \<Rightarrow> None
      | v # vs \<Rightarrow> Some (v # vs))"

text \<open>
  No answer from the service, no credentials, no URL file; the conversion to Markdown
  is a table with the one entry of the specification's example.
\<close>

definition plain :: env where
  "plain = \<lparr>urlparse = urlparse_plain, parse_qs = parse_qs_plain,
             unicode_digit = (\<lambda>c. False), py_repr = (\<lambda>v. []),
             markdownify = (\<lambda>v. if v = JStr (lit ''<h1>Hi</h1>'') then Inr (lit ''# Hi'')
                                 else (case v of JStr h \<Rightarrow> Inr h | _ \<Rightarrow> Inl ConversionError)),
             session_get = (\<lambda>n url. Raises),
             api_token = None, user_name = None, urls_txt = None\<rparr>"

text \<open>
  A service for the examples, on the host \<open>h\<close>. Page 1 is the page of the
  specification's example and its author \<open>u1\<close> resolves to a display name; page 2 does
  not exist; page 3 has neither a link nor a space name, and \<open>answer\<close> is what the lookup
  of its author \<open>u3\<close> gets; the \<open>space\<close> of page 4 and the \<open>_links\<close> of page 5 are
  \<open>null\<close>; page 6 has a title and nothing else.
\<close>

definition page1 :: json where
  "page1 = JObj [(lit ''title'', JStr (lit ''Spec'')),
                 (lit ''space'', JObj [(lit ''key'', JStr (lit ''E'')), (lit ''name'', JStr (lit ''ENG''))]),
                 (lit ''history'', JObj [(lit ''createdBy'', JObj [(lit ''accountId'', JStr (lit ''u1''))])]),
                 (lit ''version'', JObj [(lit ''friendlyWhen'', JStr (lit ''2 days ago''))]),
                 (lit ''body'', JObj [(lit ''storage'', JObj [(lit ''value'', JStr (lit ''<h1>Hi</h1>''))])]),
                 (lit ''_links'', JObj [(lit ''webui'', JStr (lit ''/pages/1''))])]"

definition page3 :: json where
  "page3 = JObj [(lit ''title'', JStr (lit ''Notes'')),
                 (lit ''space'', JObj [(lit ''key'', JStr (lit ''OPS''))]),
                 (lit ''history'', JObj [(lit ''createdBy'', JObj [(lit ''accountId'', JStr (lit ''u3''))])]),
                 (lit ''body'', JObj [(lit ''storage'', JObj [(lit ''value'', JStr (lit ''text''))])])]"

definition page4 :: json where
  "page4 = JObj [(lit ''title'', JStr (lit ''Draft'')), (lit ''space'', JNull)]"

definition page5 :: json where
  "page5 = JObj [(lit ''title'', JStr (lit ''Old'')), (lit ''_links'', JNull)]"

definition page6 :: json where
  "page6 = JObj [(lit ''title'', JStr (lit ''Bare''))]"

definition remote :: "http_outcome \<Rightarrow> nat \<Rightarrow> ustr \<Rightarrow> http_outcome" where
  "remote answer n url =
     (if url = page_url (lit ''https://h/wiki'') (lit ''1'') then Responds 200 (Some page1)
      else if url = page_url (lit ''https://h/wiki'') (lit ''3'') then Responds 200 (Some page3)
      else if url = page_url (lit ''https://h/wiki'') (lit ''4'') then Responds 200 (Some page4)
      else if url = page_url (lit ''https://h/wiki'') (lit ''5'') then Responds 200 (Some page5)
      else if url = page_url (lit ''https://h/wiki'') (lit ''6'') then Responds 200 (Some page6)
      else if url = lit ''https://h/wiki/rest/api/user?accountId=u1''
        then Responds 200 (Some (JObj [(lit ''displayName'', JStr (lit ''Jane Doe''))]))
      else if url = lit ''https://h/wiki/rest/api/user?accountId=u3'' then answer
      else Responds 404 None)"

definition office :: "http_outcome \<Rightarrow> env" where
  "office answer =
     plain\<lparr>session_get := remote answer,
           api_token := Some (lit ''secret''), user_name := Some (lit ''jane@example.com''),
           urls_txt := Some [lit ''https://h/wiki/pages/1'' @ [10], [10],
                             lit ''  https://h/wiki/pages/2'' @ [10],
                             lit ''https://h/wiki/pages/3/Notes'' @ [10]]\<rparr>"

text \<open>A service that knows nobody.\<close>

definition nobody :: env where
  "nobody = plain\<lparr>session_get := (\<lambda>n url. Responds 404 None)\<rparr>"

section \<open>Facts about the state and the text functions\<close>

lemma sent_say [simp]: "sent (say n s) = sent s"
  and cache_say [simp]: "cache (say n s) = cache s"
  and written_say [simp]: "written (say n s) = written s"
  and console_say [simp]: "console (say n s) = console s @ [n]"
  by (simp_all add: say_def)

lemma sent_request [simp]: "sent (request r s) = sent s @ [r]"
  and cache_request [simp]: "cache (request r s) = cache s"
  and written_request [simp]: "written (request r s) = written s"
  and console_request [simp]: "console (request r s) = console s"
  by (simp_all add: request_def)

lemma startswith_iff: "startswith s p \<longleftrightarrow> (\<exists>r. s = p @ r)"
  by (induction s p rule: startswith.induct) auto

lemma length_pages [simp]: "length (lit ''/pages/'') = 7"
  by (simp add: lit_def)

lemma takeWhile_eq_iff:
  "takeWhile P r = g \<longleftrightarrow>
     (\<exists>rest. r = g @ rest \<and> list_all P g \<and> (rest = [] \<or> \<not> P (hd rest)))"
proof
  assume "takeWhile P r = g"
  then have "r = g @ dropWhile P r" and "list_all P g"
    by (auto simp: list_all_iff dest: set_takeWhileD)
  moreover have "dropWhile P r = [] \<or> \<not> P (hd (dropWhile P r))"
    using hd_dropWhile [of P r] by blast
  ultimately show "\<exists>rest. r = g @ rest \<and> list_all P g \<and> (rest = [] \<or> \<not> P (hd rest))"
    by blast
next
  assume "\<exists>rest. r = g @ rest \<and> list_all P g \<and> (rest = [] \<or> \<not> P (hd rest))"
  then obtain rest where r: "r = g @ rest" and g: "list_all P g"
    and rest: "rest = [] \<or> \<not> P (hd rest)" by blast
  from g have "takeWhile P (g @ rest) = g @ takeWhile P rest"
    by (simp add: list_all_iff)
  moreover from rest have "takeWhile P rest = []" by (cases rest) auto
  ultimately show "takeWhile P r = g" using r by simp
qed

section \<open>The pattern search\<close>

lemma match_pages_Some_iff:
  "match_pages E s = Some g \<longleftrightarrow>
     (\<exists>rest. s = lit ''/pages/'' @ g @ rest \<and> g \<noteq> [] \<and> list_all (re_digit E) g
        \<and> (rest = [] \<or> \<not> re_digit E (hd rest)))"
proof (cases "startswith s (lit ''/pages/'')")
  case False
  then show ?thesis by (auto simp: match_pages_def startswith_iff)
next
  case True
  then obtain r where s: "s = lit ''/pages/'' @ r" by (auto simp: startswith_iff)
  have "match_pages E s = Some g \<longleftrightarrow> takeWhile (re_digit E) r = g \<and> g \<noteq> []"
    using True by (auto simp: match_pages_def s split: list.splits)
  then show ?thesis unfolding takeWhile_eq_iff s by auto
qed

lemma pages_at_iff: "pages_at E s n \<longleftrightarrow> match_pages E (drop n s) \<noteq> None"
  by (simp add: pages_at_def match_pages_def del: drop_drop split: list.splits)

lemma re_search_pages_None_iff: "re_search_pages E s = None \<longleftrightarrow> (\<forall>n. \<not> pages_at E s n)"
proof (induction s)
  case Nil
  show ?case by (simp add: pages_at_iff match_pages_def lit_def)
next
  case (Cons c cs)
  have "(\<forall>n. \<not> pages_at E (c # cs) n) \<longleftrightarrow>
          \<not> pages_at E (c # cs) 0 \<and> (\<forall>n. \<not> pages_at E (c # cs) (Suc n))"
    by (metis not0_implies_Suc)
  then show ?case using Cons
    by (simp add: pages_at_iff split: option.split)
qed

lemma re_search_pages_skip:
  "\<forall>m<length pre. \<not> pages_at E (pre @ s) m \<Longrightarrow>
   re_search_pages E (pre @ s) = re_search_pages E s"
proof (induction pre)
  case Nil
  show ?case by simp
next
  case (Cons c pre)
  have "\<not> pages_at E (c # pre @ s) 0" using Cons.prems by auto
  then have here: "match_pages E (c # pre @ s) = None" by (simp add: pages_at_iff)
  have "\<forall>m<length pre. \<not> pages_at E (pre @ s) m"
  proof (intro allI impI)
    fix m assume "m < length pre"
    then have "\<not> pages_at E ((c # pre) @ s) (Suc m)" using Cons.prems by auto
    then show "\<not> pages_at E (pre @ s) m" by (simp add: pages_at_iff)
  qed
  then show ?case using Cons.IH here by simp
qed

lemma re_search_pages_here:
  "match_pages E s = Some g \<Longrightarrow> re_search_pages E s = Some g"
  by (cases s) (auto simp: match_pages_def lit_def)

lemma re_search_pages_leftmost:
  assumes "s = pre @ lit ''/pages/'' @ ds @ rest" and "ds \<noteq> []"
    and "list_all (re_digit E) ds" and "rest = [] \<or> \<not> re_digit E (hd rest)"
    and "\<forall>m<length pre. \<not> pages_at E s m"
  shows "re_search_pages E s = Some ds"
proof -
  have "match_pages E (lit ''/pages/'' @ ds @ rest) = Some ds"
    using assms(2-4) by (auto simp: match_pages_Some_iff)
  then have "re_search_pages E (lit ''/pages/'' @ ds @ rest) = Some ds"
    by (rule re_search_pages_here)
  then show ?thesis using re_search_pages_skip [of pre E "lit ''/pages/'' @ ds @ rest"] assms(1,5)
    by simp
qed

lemma re_search_pages_Some:
  "re_search_pages E s = Some g \<Longrightarrow>
   g \<noteq> [] \<and> list_all (re_digit E) g \<and> (\<exists>pre rest. s = pre @ lit ''/pages/'' @ g @ rest)"
proof (induction s)
  case Nil
  then show ?case by simp
next
  case (Cons c cs)
  show ?case
  proof (cases "match_pages E (c # cs)")
    case (Some h)
    then have "h = g" using Cons.prems by simp
    then show ?thesis using Some unfolding match_pages_Some_iff by (metis append_Nil)
  next
    case None
    then have "re_search_pages E cs = Some g" using Cons.prems by simp
    then obtain pre rest where "g \<noteq> []" "list_all (re_digit E) g" "cs = pre @ lit ''/pages/'' @ g @ rest"
      using Cons.IH by blast
    then show ?thesis by (metis append_Cons)
  qed
qed

text \<open>What an accepted URL gives, whichever shape matched.\<close>

lemma parse_confluence_url_Inr:
  assumes "parse_confluence_url E url = Inr (base_url, page_id)"
  shows "\<exists>pu. urlparse E url = Some pu
           \<and> base_url = scheme pu @ lit ''://'' @ netloc pu @ lit ''/wiki''
           \<and> page_id \<noteq> []
           \<and> ((contains (lit ''viewpage.action'') (path pu)
                 \<and> (\<exists>vs. parse_qs E (query pu) (lit ''pageId'') = Some (page_id # vs)))
               \<or> (list_all (re_digit E) page_id
                   \<and> (\<exists>pre rest. path pu = pre @ lit ''/pages/'' @ page_id @ rest)))"
proof -
  obtain pu where pu: "urlparse E url = Some pu"
    using assms by (cases "urlparse E url") (auto simp: parse_confluence_url_def)
  let ?b = "scheme pu @ lit ''://'' @ netloc pu @ lit ''/wiki''"
  have by_path: "list_all (re_digit E) page_id \<and> page_id \<noteq> [] \<and> base_url = ?b
      \<and> (\<exists>pre rest. path pu = pre @ lit ''/pages/'' @ page_id @ rest)"
    if "(case re_search_pages E (path pu) of Some p \<Rightarrow> Inr (?b, p) | None \<Rightarrow> Inl No_page_id)
          = Inr (base_url, page_id)"
    using that re_search_pages_Some [of E "path pu" page_id]
    by (auto split: option.splits)
  show ?thesis
    using assms pu by_path
    by (intro exI [of _ pu])
       (auto simp: parse_confluence_url_def Let_def split: if_splits option.splits list.splits)
qed

lemma parse_confluence_url_nonempty:
  assumes "parse_confluence_url E url = Inr (base_url, page_id)"
  shows "page_id \<noteq> [] \<and> base_url \<noteq> []"
  using parse_confluence_url_Inr [OF assms] by (auto simp: lit_def)

section \<open>The display-name resolver\<close>

text \<open>
  C5. Called with an account id that is absent (\<open>None\<close>) or empty, the resolver returns
  the fixed label and leaves the state as it was: no request is issued, nothing is cached
  or printed.
\<close>

theorem get_display_name_no_account_id:
  "\<not> truthy account_id \<Longrightarrow>
   get_display_name E account_id base_url s = (Inr (JStr unknown_creator), s)"
  by (simp add: get_display_name_def)

theorem get_display_name_no_account_id_witness:
  "get_display_name nobody JNull (lit ''https://h/wiki'') fresh = (Inr (JStr unknown_creator), fresh)
   \<and> get_display_name nobody (JStr []) (lit ''https://h/wiki'') fresh
       = (Inr (JStr unknown_creator), fresh)
   \<and> sent fresh = []"
  using get_display_name_no_account_id [of JNull nobody "lit ''https://h/wiki''" fresh]
    get_display_name_no_account_id [of "JStr []" nobody "lit ''https://h/wiki''" fresh]
  by (simp add: fresh_def)



section \<open>The URL parser\<close>

text \<open>
  C2, as the code has it. An accepted URL gives the base URL \<open>{scheme}://{netloc}/wiki\<close> and
  a non-empty page id. The id is a run of digits when the path shape gave it; when the
  query shape gave it, it is the first value of the parameter \<open>pageId\<close>, whatever
  non-empty text that is. Parsing fails when \<open>urlparse\<close> raises, and when the query shape
  gives no non-empty id and the path has no \<open>/pages/\<close> followed by a digit.
\<close>

theorem parse_confluence_url_result:
  "(parse_confluence_url E url = Inr (base_url, page_id) \<longrightarrow>
      (\<exists>pu. urlparse E url = Some pu
         \<and> base_url = scheme pu @ lit ''://'' @ netloc pu @ lit ''/wiki''
         \<and> page_id \<noteq> []
         \<and> ((contains (lit ''viewpage.action'') (path pu)
               \<and> (\<exists>vs. parse_qs E (query pu) (lit ''pageId'') = Some (page_id # vs)))
             \<or> (list_all (re_digit E) page_id
                 \<and> (\<exists>pre rest. path pu = pre @ lit ''/pages/'' @ page_id @ rest)))))
   \<and> ((urlparse E url = None
        \<or> (\<exists>pu. urlparse E url = Some pu
              \<and> (\<not> contains (lit ''viewpage.action'') (path pu)
                   \<or> parse_qs E (query pu) (lit ''pageId'') = None
                   \<or> (\<exists>vs. parse_qs E (query pu) (lit ''pageId'') = Some ([] # vs)))
              \<and> (\<forall>n. \<not> pages_at E (path pu) n)))
       \<longrightarrow> (\<exists>f. parse_confluence_url E url = Inl f))"
proof (intro conjI impI)
  assume "parse_confluence_url E url = Inr (base_url, page_id)"
  then show "\<exists>pu. urlparse E url = Some pu
         \<and> base_url = scheme pu @ lit ''://'' @ netloc pu @ lit ''/wiki''
         \<and> page_id \<noteq> []
         \<and> ((contains (lit ''viewpage.action'') (path pu)
               \<and> (\<exists>vs. parse_qs E (query pu) (lit ''pageId'') = Some (page_id # vs)))
             \<or> (list_all (re_digit E) page_id
                 \<and> (\<exists>pre rest. path pu = pre @ lit ''/pages/'' @ page_id @ rest)))"
    by (rule parse_confluence_url_Inr)
next
  assume "urlparse E url = None
        \<or> (\<exists>pu. urlparse E url = Some pu
              \<and> (\<not> contains (lit ''viewpage.action'') (path pu)
                   \<or> parse_qs E (query pu) (lit ''pageId'') = None
                   \<or> (\<exists>vs. parse_qs E (query pu) (lit ''pageId'') = Some ([] # vs)))
              \<and> (\<forall>n. \<not> pages_at E (path pu) n))"
  then show "\<exists>f. parse_confluence_url E url = Inl f"
    by (auto simp: parse_confluence_url_def Let_def re_search_pages_None_iff [symmetric])
qed

theorem parse_confluence_url_result_witness:
  "(\<exists>pu. urlparse plain (lit ''https://h/wiki/pages/viewpage.action?pageId=123'') = Some pu
         \<and> lit ''https://h/wiki'' = scheme pu @ lit ''://'' @ netloc pu @ lit ''/wiki''
         \<and> lit ''123'' \<noteq> []
         \<and> ((contains (lit ''viewpage.action'') (path pu)
               \<and> (\<exists>vs. parse_qs plain (query pu) (lit ''pageId'') = Some (lit ''123'' # vs)))
             \<or> (list_all (re_digit plain) (lit ''123'')
                 \<and> (\<exists>pre rest. path pu = pre @ lit ''/pages/'' @ lit ''123'' @ rest))))
   \<and> (\<exists>f. parse_confluence_url plain (lit ''https://h/wiki/about'') = Inl f)"
proof -
  let ?ok = "lit ''https://h/wiki/pages/viewpage.action?pageId=123''"
  let ?bad = "lit ''https://h/wiki/about''"
  let ?pu = "\<lparr>scheme = lit ''https'', netloc = lit ''h'', path = lit ''/wiki/about'',
               params = [], query = [], fragment = []\<rparr>"
  have ok: "parse_confluence_url plain ?ok = Inr (lit ''https://h/wiki'', lit ''123'')"
    by code_simp
  have pu: "urlparse plain ?bad = Some ?pu" by code_simp
  have "\<not> contains (lit ''viewpage.action'') (path ?pu)" by code_simp
  moreover have "re_search_pages plain (path ?pu) = None" by code_simp
  then have "\<forall>n. \<not> pages_at plain (path ?pu) n" by (rule iffD1 [OF re_search_pages_None_iff])
  ultimately have bad: "urlparse plain ?bad = None
        \<or> (\<exists>pu. urlparse plain ?bad = Some pu
              \<and> (\<not> contains (lit ''viewpage.action'') (path pu)
                   \<or> parse_qs plain (query pu) (lit ''pageId'') = None
                   \<or> (\<exists>vs. parse_qs plain (query pu) (lit ''pageId'') = Some ([] # vs)))
              \<and> (\<forall>n. \<not> pages_at plain (path pu) n))"
    using pu by blast
  show ?thesis
    using parse_confluence_url_result [of plain ?ok "lit ''https://h/wiki''" "lit ''123''"]
      parse_confluence_url_result [of plain ?bad "[]" "[]"] ok bad
    by blast
qed

text \<open>
  C2 as stated fails: the query shape accepts a page id that is not numeric.
\<close>

theorem parse_confluence_url_not_numeric:
  "parse_confluence_url plain (lit ''https://h/wiki/pages/viewpage.action?pageId=abc'')
     = Inr (lit ''https://h/wiki'', lit ''abc'')
   \<and> \<not> list_all (re_digit plain) (lit ''abc'')"
  by code_simp

text \<open>
  C7, as the code has it. The search takes the leftmost place of the path where
  \<open>/pages/\<close> is followed by a digit, and the page id is the whole run of digits there:
  when the path is \<open>pre/pages/<digits>rest\<close>, \<open>rest\<close> does not go on with a digit and no
  such place lies inside \<open>pre\<close>, the parser returns exactly these digits (unless the query
  shape has given a non-empty id before).
\<close>

theorem parse_confluence_url_path_shape:
  assumes "urlparse E url = Some pu"
    and "path pu = pre @ lit ''/pages/'' @ ds @ rest"
    and "ds \<noteq> []" and "list_all (re_digit E) ds"
    and "rest = [] \<or> \<not> re_digit E (hd rest)"
    and "\<forall>m<length pre. \<not> pages_at E (path pu) m"
    and "\<not> contains (lit ''viewpage.action'') (path pu)
         \<or> parse_qs E (query pu) (lit ''pageId'') = None
         \<or> (\<exists>vs. parse_qs E (query pu) (lit ''pageId'') = Some ([] # vs))"
  shows "parse_confluence_url E url
           = Inr (scheme pu @ lit ''://'' @ netloc pu @ lit ''/wiki'', ds)"
proof -
  have "re_search_pages E (path pu) = Some ds"
    using assms(2-6) by (rule re_search_pages_leftmost)
  then show ?thesis using assms(1,7)
    by (auto simp: parse_confluence_url_def Let_def)
qed

theorem parse_confluence_url_path_shape_witness:
  "parse_confluence_url plain (lit ''https://h/wiki/spaces/ENG/pages/123/Spec'')
     = Inr (lit ''https://h/wiki'', lit ''123'')"
proof -
  let ?u = "lit ''https://h/wiki/spaces/ENG/pages/123/Spec''"
  let ?pu = "\<lparr>scheme = lit ''https'', netloc = lit ''h'',
               path = lit ''/wiki/spaces/ENG/pages/123/Spec'',
               params = [], query = [], fragment = []\<rparr>"
  have 1: "urlparse plain ?u = Some ?pu" by code_simp
  have 2: "path ?pu = lit ''/wiki/spaces/ENG'' @ lit ''/pages/'' @ lit ''123'' @ lit ''/Spec''"
    by code_simp
  have 3: "lit ''123'' \<noteq> []" by code_simp
  have 4: "list_all (re_digit plain) (lit ''123'')" by code_simp
  have 5: "lit ''/Spec'' = [] \<or> \<not> re_digit plain (hd (lit ''/Spec''))" by code_simp
  have 6: "\<forall>m<length (lit ''/wiki/spaces/ENG''). \<not> pages_at plain (path ?pu) m" by code_simp
  have "\<not> contains (lit ''viewpage.action'') (path ?pu)" by code_simp
  then have 7: "\<not> contains (lit ''viewpage.action'') (path ?pu)
         \<or> parse_qs plain (query ?pu) (lit ''pageId'') = None
         \<or> (\<exists>vs. parse_qs plain (query ?pu) (lit ''pageId'') = Some ([] # vs))" by blast
  show ?thesis
    using parse_confluence_url_path_shape [OF 1 2 3 4 5 6 7] by code_simp
qed

text \<open>
  C7 as stated fails: this path has the segment \<open>/pages/34\<close>, and the parser returns
  \<open>12\<close>, the digits of an earlier place that is no segment of digits.
\<close>

theorem parse_confluence_url_not_that_segment:
  "map_option path (urlparse plain (lit ''https://h/wiki/pages/12ab/pages/34''))
     = Some (lit ''/wiki/pages/12ab'' @ lit ''/pages/'' @ lit ''34'')
   \<and> parse_qs plain [] (lit ''pageId'') = None
   \<and> parse_confluence_url plain (lit ''https://h/wiki/pages/12ab/pages/34'')
     = Inr (lit ''https://h/wiki'', lit ''12'')
   \<and> lit ''12'' \<noteq> lit ''34''"
  by code_simp

section \<open>The block of a page\<close>

text \<open>Unfolding these evaluates a run of the examples.\<close>

lemmas run_defs =
  main_def unset_def py_strip_def py_isspace_def process_pages_from_urls_def
  process_url_def parse_confluence_url_def office_def nobody_def plain_def urlparse_plain_def
  parse_qs_plain_def lit_def before_def after_def scheme_char_def ascii_lower_def match_pages_def
  re_digit_def get_page_def remote_def Let_def page_url_def page3_def page1_def page4_def
  page5_def page6_def utf8_encodable_def unknown_creator_def process_page_def
  py_get2_def get_display_name_def user_url_def fresh_def markdown_content_def space_label_def
  creator_label_def updated_label_def say_def request_def

lemma get_display_name_written [simp]:
  "written (snd (get_display_name E a b s)) = written s"
  by (simp add: get_display_name_def Let_def
      split: option.split http_outcome.split sum.split)


lemma get_page_effect:
  assumes "get_page E page_id base_url s = (page, s1)"
  shows "written s1 = written s" and "cache s1 = cache s"
    and "sent s1 = sent s @ [Get_page (page_url base_url page_id)]"
  using assms
  by (auto simp: get_page_def Let_def split: http_outcome.splits if_splits option.splits)

lemma utf8_encodable_append [simp]:
  "utf8_encodable (a @ b) \<longleftrightarrow> utf8_encodable a \<and> utf8_encodable b"
  by (simp add: utf8_encodable_def)



lemma process_page_None:
  assumes "process_page E url base_url page s = (None, s')"
  shows "\<exists>contents text_content account_id name s1 title space_name link updated.
      page_reads url page contents account_id title space_name link updated
    \<and> markdownify E contents = Inr text_content
    \<and> get_display_name E account_id base_url s = (Inr name, s1)
    \<and> utf8_encodable (markdown_content E title link space_name name updated text_content)
    \<and> s' = say (Block_appended
                  (markdown_content E title link space_name name updated text_content) title)
             (s1\<lparr>written := written s1 @
                  [markdown_content E title link space_name name updated text_content]\<rparr>)"
  using assms unfolding process_page_def page_reads_def
  by (auto simp: Let_def split: sum.splits prod.splits if_splits)


lemma process_url_fetched:
  assumes "parse_confluence_url E url = Inr (base_url, page_id)"
    and "get_page E page_id base_url s = (page, s1)" and "truthy page"
  shows "process_url E url s = process_page E url base_url page s1"
  using assms parse_confluence_url_nonempty [OF assms(1)]
  by (simp add: process_url_def)

















section \<open>The batch\<close>

lemma process_page_appends:
  assumes "process_page E url base_url page s = (None, s')"
  shows "\<exists>block. written s' = written s @ [block]"
proof -
  obtain account_id name s1 block n where
    "get_display_name E account_id base_url s = (Inr name, s1)"
    and "s' = say n (s1\<lparr>written := written s1 @ [block]\<rparr>)"
    using process_page_None [OF assms] by blast
  then show ?thesis
    using get_display_name_written [of E account_id base_url s] by auto
qed

lemma process_url_skips_unparsed:
  assumes "parse_confluence_url E url = Inl f"
  shows "process_url E url s
           = (None, say (case f of No_page_id \<Rightarrow> Page_id_not_found url
                                 | Parse_exception \<Rightarrow> Url_parse_error url) s)"
  using assms by (simp add: process_url_def split: parse_failure.split)

lemma process_url_skips_unfetched:
  assumes "parse_confluence_url E url = Inr (base_url, page_id)"
    and "get_page E page_id base_url s = (page, s1)" and "\<not> truthy page"
  shows "process_url E url s = (None, say (Page_unavailable url) s1)"
  using assms parse_confluence_url_nonempty [OF assms(1)]
  by (simp add: process_url_def)

lemma main_aborts:
  assumes "unset (api_token E) \<or> unset (user_name E) \<or> urls_txt E = None
           \<or> (\<exists>lines. urls_txt E = Some lines \<and> (\<forall>line\<in>set lines. py_strip line = []))"
  shows "\<exists>n. n \<in> {Missing_credentials, Url_file_not_found, No_urls_given}
           \<and> main E s = (None, say n s)"
proof -
  have "filter (\<lambda>line. py_strip line \<noteq> []) lines = []"
    if "\<forall>line\<in>set lines. py_strip line = []" for lines
    using that by (induction lines) auto
  then show ?thesis using assms
    by (auto simp: main_def Let_def split: option.split)
qed

text \<open>
  The two kinds of failure that the loop handles, and the ends of \<open>main\<close> before the
  loop. A missing credential, a missing URL file and a URL list with only blank lines end
  \<open>main\<close> with one message, before any request and any write. A URL that does not parse
  and a page whose fetch fails are skipped: the loop goes on with the next URL, and
  nothing is written for them.
\<close>

lemma failure_modes:
  "(unset (api_token E) \<or> unset (user_name E) \<or> urls_txt E = None
      \<or> (\<exists>lines. urls_txt E = Some lines \<and> (\<forall>line\<in>set lines. py_strip line = []))
    \<longrightarrow> (\<exists>n. n \<in> {Missing_credentials, Url_file_not_found, No_urls_given}
            \<and> main E s = (None, say n s))
        \<and> sent (snd (main E s)) = sent s \<and> written (snd (main E s)) = written s)
   \<and> (parse_confluence_url E url = Inl failure
    \<longrightarrow> (\<exists>n. process_loop E (url # urls) s = process_loop E urls (say n s)))
   \<and> (parse_confluence_url E url = Inr (base_url, page_id)
        \<and> get_page E page_id base_url s = (page, s1) \<and> \<not> truthy page
    \<longrightarrow> process_loop E (url # urls) s = process_loop E urls (say (Page_unavailable url) s1)
        \<and> sent s1 = sent s @ [Get_page (page_url base_url page_id)]
        \<and> written s1 = written s)"
proof (intro conjI impI)
  assume a: "unset (api_token E) \<or> unset (user_name E) \<or> urls_txt E = None
      \<or> (\<exists>lines. urls_txt E = Some lines \<and> (\<forall>line\<in>set lines. py_strip line = []))"
  show "\<exists>n. n \<in> {Missing_credentials, Url_file_not_found, No_urls_given}
            \<and> main E s = (None, say n s)"
    using a by (rule main_aborts)
  then show "sent (snd (main E s)) = sent s" and "written (snd (main E s)) = written s"
    by auto
next
  assume "parse_confluence_url E url = Inl failure"
  then show "\<exists>n. process_loop E (url # urls) s = process_loop E urls (say n s)"
    by (auto simp: process_url_skips_unparsed)
next
  assume a: "parse_confluence_url E url = Inr (base_url, page_id)
        \<and> get_page E page_id base_url s = (page, s1) \<and> \<not> truthy page"
  then have "process_url E url s = (None, say (Page_unavailable url) s1)"
    by (auto intro: process_url_skips_unfetched)
  then show "process_loop E (url # urls) s = process_loop E urls (say (Page_unavailable url) s1)"
    by simp
  show "sent s1 = sent s @ [Get_page (page_url base_url page_id)]" and "written s1 = written s"
    using a get_page_effect by blast+
qed

text \<open>
  Three URLs, the fetch of the second page fails: when the processing of the first and of
  the third page raises nothing, the batch ends without an exception and has appended
  their two blocks, in this order.
\<close>

lemma three_urls_second_fetch_fails:
  assumes "parse_confluence_url E url_1 = Inr (base_1, id_1)"
    and "get_page E id_1 base_1 (s\<lparr>cache := Map.empty\<rparr>) = (page_1, s1)"
    and "truthy page_1"
    and "process_page E url_1 base_1 page_1 s1 = (None, s2)"
    and "parse_confluence_url E url_2 = Inr (base_2, id_2)"
    and "get_page E id_2 base_2 s2 = (page_2, s3)"
    and "\<not> truthy page_2"
    and "parse_confluence_url E url_3 = Inr (base_3, id_3)"
    and "get_page E id_3 base_3 (say (Page_unavailable url_2) s3) = (page_3, s4)"
    and "truthy page_3"
    and "process_page E url_3 base_3 page_3 s4 = (None, s5)"
  shows "process_pages_from_urls E [url_1, url_2, url_3] s = (None, s5)
    \<and> (\<exists>block_1 block_3.
          written s2 = written s @ [block_1]
        \<and> written s5 = written s4 @ [block_3]
        \<and> written s5 = written s @ [block_1, block_3])"
proof -
  have u1: "process_url E url_1 (s\<lparr>cache := Map.empty\<rparr>) = (None, s2)"
    using assms(1-4) by (simp add: process_url_fetched)
  have u2: "process_url E url_2 s2 = (None, say (Page_unavailable url_2) s3)"
    using assms(5-7) by (rule process_url_skips_unfetched)
  have u3: "process_url E url_3 (say (Page_unavailable url_2) s3) = (None, s5)"
    using assms(8-11) by (simp add: process_url_fetched)
  have run: "process_pages_from_urls E [url_1, url_2, url_3] s = (None, s5)"
    using u1 u2 u3 by (simp add: process_pages_from_urls_def)
  obtain block_1 where b1: "written s2 = written s1 @ [block_1]"
    using process_page_appends [OF assms(4)] by blast
  obtain block_3 where b3: "written s5 = written s4 @ [block_3]"
    using process_page_appends [OF assms(11)] by blast
  have "written s1 = written s"
    using get_page_effect(1) [OF assms(2)] by simp
  moreover have "written s3 = written s2"
    using get_page_effect(1) [OF assms(6)] .
  moreover have "written s4 = written s3"
    using get_page_effect(1) [OF assms(9)] by simp
  ultimately show ?thesis using run b1 b3 by simp
qed

text \<open>
  C6 at a failing input. The three fetches go as the claim describes: the first and the
  third page are fetched, the fetch of the second fails. Then the lookup of the third
  page's author raises inside \<open>session.get\<close>. \<open>get_display_name\<close> has no \<open>try\<close> (its
  docstring promises the account id when the name cannot be obtained, and \<open>get_page\<close>
  catches the same exception), so the exception ends the batch: one block is written where
  the claim has two, and the batch ends with the exception.
\<close>

theorem three_urls_author_lookup_raises:
  "session_get (office Raises) 0 (page_url (lit ''https://h/wiki'') (lit ''1'')) = Responds 200 (Some page1)
   \<and> session_get (office Raises) 2 (page_url (lit ''https://h/wiki'') (lit ''2'')) = Responds 404 None
   \<and> session_get (office Raises) 3 (page_url (lit ''https://h/wiki'') (lit ''3'')) = Responds 200 (Some page3)
   \<and> sent (snd (process_pages_from_urls (office Raises)
        [lit ''https://h/wiki/pages/1'', lit ''https://h/wiki/pages/2'', lit ''https://h/wiki/pages/3/Notes'']
        fresh))
      = [Get_page (page_url (lit ''https://h/wiki'') (lit ''1'')),
         Get_user (JStr (lit ''u1'')) (lit ''https://h/wiki/rest/api/user?accountId=u1''),
         Get_page (page_url (lit ''https://h/wiki'') (lit ''2'')),
         Get_page (page_url (lit ''https://h/wiki'') (lit ''3'')),
         Get_user (JStr (lit ''u3'')) (lit ''https://h/wiki/rest/api/user?accountId=u3'')]
   \<and> fst (process_pages_from_urls (office Raises)
        [lit ''https://h/wiki/pages/1'', lit ''https://h/wiki/pages/2'', lit ''https://h/wiki/pages/3/Notes'']
        fresh) = Some RequestException
   \<and> length (written (snd (process_pages_from_urls (office Raises)
        [lit ''https://h/wiki/pages/1'', lit ''https://h/wiki/pages/2'', lit ''https://h/wiki/pages/3/Notes'']
        fresh))) = 1"
  by (simp add: run_defs)


text \<open>
  C8 at a failing input. The credentials and the URL list are there and the page of the
  first URL is fetched; the lookup of its author raises inside \<open>session.get\<close>. The
  exception leaves \<open>get_display_name\<close>, the loop and \<open>main\<close>: the page is not written,
  the second URL is never requested, where the claim has every such failure cost one page
  and the run continue.
\<close>

theorem author_lookup_exception_ends_run:
  "fst (main (office Raises\<lparr>urls_txt := Some [lit ''https://h/wiki/pages/3/Notes'' @ [10],
                                                lit ''https://h/wiki/pages/1'' @ [10]]\<rparr>) fresh)
     = Some RequestException
   \<and> sent (snd (main (office Raises\<lparr>urls_txt := Some [lit ''https://h/wiki/pages/3/Notes'' @ [10],
                                                lit ''https://h/wiki/pages/1'' @ [10]]\<rparr>) fresh))
     = [Get_page (page_url (lit ''https://h/wiki'') (lit ''3'')),
        Get_user (JStr (lit ''u3'')) (lit ''https://h/wiki/rest/api/user?accountId=u3'')]
   \<and> written (snd (main (office Raises\<lparr>urls_txt := Some [lit ''https://h/wiki/pages/3/Notes'' @ [10],
                                                lit ''https://h/wiki/pages/1'' @ [10]]\<rparr>) fresh))
     = []"
  by (simp add: run_defs)

section \<open>Lookups per account id\<close>

lemma cache_inv_cong:
  "sent s' = sent s \<Longrightarrow> cache s' = cache s \<Longrightarrow> cache_inv E s' = cache_inv E s"
  by (simp add: cache_inv_def cache_covers_def)

lemma cache_inv_request_page:
  assumes "cache_inv E s"
  shows "cache_inv E (request (Get_page url) s)"
proof -
  have cov: "cache_covers E s" and nl: "no_lookup_after_success E (sent s)"
    using assms by (simp_all add: cache_inv_def)
  have "cache_covers E (request (Get_page url) s)"
    using cov by (auto simp: cache_covers_def nth_append lookup_ok_def less_Suc_eq)
  moreover have "no_lookup_after_success E (sent s @ [Get_page url])"
    unfolding no_lookup_after_success_def
  proof (intro ballI impI)
    fix j i assume j: "j \<in> {..<length (sent s @ [Get_page url])}" and i: "i \<in> {..<j}"
      and ok: "lookup_ok E i ((sent s @ [Get_page url]) ! i)"
    have il: "i < length (sent s)" using i j by auto
    then have oki: "lookup_ok E i (sent s ! i)" using ok by (simp add: nth_append)
    show "lookup_key ((sent s @ [Get_page url]) ! j) \<noteq> lookup_key ((sent s @ [Get_page url]) ! i)"
    proof (cases "j < length (sent s)")
      case True
      then show ?thesis using nl oki i il
        by (auto simp: no_lookup_after_success_def nth_append)
    next
      case False
      then have "j = length (sent s)" using j by auto
      moreover obtain k where "lookup_key (sent s ! i) = Some k"
        using cov oki il by (auto simp: cache_covers_def)
      ultimately show ?thesis using il by (simp add: nth_append lookup_key_def)
    qed
  qed
  ultimately show ?thesis by (simp add: cache_inv_def)
qed

lemma cache_inv_request_user:
  assumes "cache_inv E s" and "key_of a = Some k" and "cache s k = None"
  shows "no_lookup_after_success E (sent s @ [Get_user a url])"
  unfolding no_lookup_after_success_def
proof (intro ballI impI)
  have cov: "cache_covers E s" and nl: "no_lookup_after_success E (sent s)"
    using assms by (simp_all add: cache_inv_def)
  fix j i assume j: "j \<in> {..<length (sent s @ [Get_user a url])}" and i: "i \<in> {..<j}"
    and ok: "lookup_ok E i ((sent s @ [Get_user a url]) ! i)"
  have il: "i < length (sent s)" using i j by auto
  then have oki: "lookup_ok E i (sent s ! i)" using ok by (simp add: nth_append)
  show "lookup_key ((sent s @ [Get_user a url]) ! j) \<noteq> lookup_key ((sent s @ [Get_user a url]) ! i)"
  proof (cases "j < length (sent s)")
    case True
    then show ?thesis using nl oki i il
      by (auto simp: no_lookup_after_success_def nth_append)
  next
    case False
    then have "j = length (sent s)" using j by auto
    moreover obtain k' where "lookup_key (sent s ! i) = Some k'" "cache s k' \<noteq> None"
      using cov oki il by (auto simp: cache_covers_def)
    ultimately show ?thesis using il assms(2,3) by (auto simp: nth_append lookup_key_def)
  qed
qed

lemma cache_covers_request_user:
  assumes "cache_covers E s" and "key_of a = Some k"
    and "lookup_ok E (length (sent s)) (Get_user a url) \<longrightarrow> c k \<noteq> None"
    and "\<And>k'. cache s k' \<noteq> None \<Longrightarrow> c k' \<noteq> None"
    and "sent s' = sent s @ [Get_user a url]" and "cache s' = c"
  shows "cache_covers E s'"
  unfolding cache_covers_def
proof (intro ballI impI)
  fix i assume i: "i \<in> {..<length (sent s')}" and ok: "lookup_ok E i (sent s' ! i)"
  show "\<exists>k. lookup_key (sent s' ! i) = Some k \<and> cache s' k \<noteq> None"
  proof (cases "i < length (sent s)")
    case True
    then have "lookup_ok E i (sent s ! i)" using ok assms(5) by (simp add: nth_append)
    then obtain k' where "lookup_key (sent s ! i) = Some k'" "cache s k' \<noteq> None"
      using assms(1) True by (auto simp: cache_covers_def)
    then show ?thesis using True assms(4,5,6) by (auto simp: nth_append)
  next
    case False
    then have "i = length (sent s)" using i assms(5) by auto
    then show ?thesis using ok assms(2,3,5,6) by (auto simp: lookup_key_def)
  qed
qed

lemma cache_inv_get_display_name:
  assumes "cache_inv E s"
  shows "cache_inv E (snd (get_display_name E a b s))"
proof (cases "truthy a \<and> (\<exists>k. key_of a = Some k \<and> cache s k = None)")
  case False
  then have "snd (get_display_name E a b s) = s"
    by (auto simp: get_display_name_def split: option.split)
  then show ?thesis using assms by simp
next
  case True
  then obtain k where t: "truthy a" and k: "key_of a = Some k" and c: "cache s k = None"
    by blast
  let ?url = "user_url E b a"
  let ?s' = "snd (get_display_name E a b s)"
  have sent': "sent ?s' = sent s @ [Get_user a ?url]"
    using t k c by (simp add: get_display_name_def Let_def
        split: http_outcome.split option.split sum.split)
  have grows: "cache s k' \<noteq> None \<Longrightarrow> cache ?s' k' \<noteq> None" for k'
    using t k c by (simp add: get_display_name_def Let_def
        split: http_outcome.split option.split sum.split)
  have ok: "lookup_ok E (length (sent s)) (Get_user a ?url) \<longrightarrow> cache ?s' k \<noteq> None"
    using t k c by (auto simp: get_display_name_def Let_def lookup_ok_def
        split: http_outcome.splits option.splits sum.splits json.splits)
  have "cache_covers E ?s'"
  proof (rule cache_covers_request_user [where s = s and a = a and k = k])
    show "cache_covers E s" using assms by (simp add: cache_inv_def)
    show "key_of a = Some k" by (rule k)
    show "lookup_ok E (length (sent s)) (Get_user a ?url) \<longrightarrow> cache ?s' k \<noteq> None"
      by (rule ok)
    show "cache s k' \<noteq> None \<Longrightarrow> cache ?s' k' \<noteq> None" for k' by (rule grows)
    show "sent ?s' = sent s @ [Get_user a ?url]" by (rule sent')
    show "cache ?s' = cache ?s'" by (rule refl)
  qed
  moreover have "no_lookup_after_success E (sent ?s')"
    unfolding sent' using assms k c by (rule cache_inv_request_user)
  ultimately show ?thesis by (simp add: cache_inv_def)
qed

lemma cache_inv_say [simp]: "cache_inv E (say n s) = cache_inv E s"
  by (rule cache_inv_cong) simp_all

lemma cache_inv_written [simp]: "cache_inv E (s\<lparr>written := w\<rparr>) = cache_inv E s"
  by (rule cache_inv_cong) simp_all

lemma cache_inv_get_display_name_result:
  "get_display_name E a b s = (r, s1) \<Longrightarrow> cache_inv E s \<Longrightarrow> cache_inv E s1"
  using cache_inv_get_display_name [of E s a b] by simp

lemma cache_inv_get_page:
  "get_page E page_id base_url s = (page, s1) \<Longrightarrow> cache_inv E s \<Longrightarrow> cache_inv E s1"
  by (auto simp: get_page_def Let_def cache_inv_request_page
      split: http_outcome.splits if_splits option.splits)

lemma cache_inv_process_page:
  "cache_inv E s \<Longrightarrow> cache_inv E (snd (process_page E url base_url page s))"
  unfolding process_page_def
  by (auto simp: Let_def split: sum.splits prod.splits dest: cache_inv_get_display_name_result)

lemma cache_inv_process_url:
  "cache_inv E s \<Longrightarrow> cache_inv E (snd (process_url E url s))"
  by (auto simp: process_url_def cache_inv_process_page
      split: sum.splits parse_failure.splits prod.splits dest: cache_inv_get_page)

lemma cache_inv_process_loop:
  "cache_inv E s \<Longrightarrow> cache_inv E (snd (process_loop E urls s))"
proof (induction urls arbitrary: s)
  case Nil
  then show ?case by simp
next
  case (Cons url urls)
  obtain r s1 where step: "process_url E url s = (r, s1)" by (cases "process_url E url s")
  then have inv1: "cache_inv E s1"
    using cache_inv_process_url [OF Cons.prems, of url] by simp
  show ?case
  proof (cases r)
    case None
    then show ?thesis using step Cons.IH [OF inv1] by simp
  next
    case (Some e)
    then show ?thesis using step inv1 by simp
  qed
qed

lemma cache_inv_start:
  "sent s = [] \<Longrightarrow> cache_inv E (s\<lparr>cache := Map.empty\<rparr>)"
  by (simp add: cache_inv_def cache_covers_def no_lookup_after_success_def)

lemma process_pages_from_urls_lookups:
  "sent s = [] \<Longrightarrow>
   no_lookup_after_success E (sent (snd (process_pages_from_urls E page_urls s)))"
  using cache_inv_process_loop [OF cache_inv_start, of s E page_urls]
  by (simp add: process_pages_from_urls_def cache_inv_def)

lemma get_display_name_cached:
  assumes "truthy a" and "key_of a = Some k" and "cache s k = None"
    and "session_get E (length (sent s)) (user_url E b a) = Responds 200 (Some (JObj kvs))"
  shows "\<exists>v s1. get_display_name E a b s = (Inr v, s1)
           \<and> sent s1 = sent s @ [Get_user a (user_url E b a)]
           \<and> get_display_name E a b' s1 = (Inr v, s1)"
  using assms by (simp add: get_display_name_def Let_def)

text \<open>
  C1, as the code has it. A call for an account id that is not in the cache, whose lookup
  is answered with status 200 and a JSON object, issues exactly one request and stores the
  name; a second call with the same account id returns the same value and issues none.
  In a whole batch that starts with an empty log, no lookup is issued for an account id
  after a lookup for it has succeeded: at most one successful lookup per account id.
  Lookups that did not succeed are repeated.
\<close>

theorem lookups_per_account_id:
  "(truthy a \<and> key_of a = Some k \<and> cache s k = None
      \<and> session_get E (length (sent s)) (user_url E b a) = Responds 200 (Some (JObj kvs))
    \<longrightarrow> (\<exists>v s1. get_display_name E a b s = (Inr v, s1)
           \<and> sent s1 = sent s @ [Get_user a (user_url E b a)]
           \<and> get_display_name E a b' s1 = (Inr v, s1)))
   \<and> (sent s0 = []
    \<longrightarrow> no_lookup_after_success E (sent (snd (process_pages_from_urls E page_urls s0))))"
  using get_display_name_cached process_pages_from_urls_lookups by blast

theorem lookups_per_account_id_witness:
  "(\<exists>v s1. get_display_name (office (Responds 404 None)) (JStr (lit ''u1'')) (lit ''https://h/wiki'')
              fresh = (Inr v, s1)
          \<and> sent s1 = sent fresh
              @ [Get_user (JStr (lit ''u1''))
                   (user_url (office (Responds 404 None)) (lit ''https://h/wiki'') (JStr (lit ''u1'')))]
          \<and> get_display_name (office (Responds 404 None)) (JStr (lit ''u1'')) (lit ''https://h/wiki'')
              s1 = (Inr v, s1))
   \<and> no_lookup_after_success (office (Responds 404 None))
        (sent (snd (process_pages_from_urls (office (Responds 404 None))
           [lit ''https://h/wiki/pages/1'', lit ''https://h/wiki/pages/1''] fresh)))
   \<and> sent (snd (process_pages_from_urls (office (Responds 404 None))
           [lit ''https://h/wiki/pages/1'', lit ''https://h/wiki/pages/1''] fresh))
       = [Get_page (page_url (lit ''https://h/wiki'') (lit ''1'')),
          Get_user (JStr (lit ''u1'')) (lit ''https://h/wiki/rest/api/user?accountId=u1''),
          Get_page (page_url (lit ''https://h/wiki'') (lit ''1''))]"
proof -
  let ?E = "office (Responds 404 None)"
  have a: "truthy (JStr (lit ''u1'')) \<and> key_of (JStr (lit ''u1'')) = Some (KStr (lit ''u1''))
      \<and> cache fresh (KStr (lit ''u1'')) = None
      \<and> session_get ?E (length (sent fresh)) (user_url ?E (lit ''https://h/wiki'') (JStr (lit ''u1'')))
          = Responds 200 (Some (JObj [(lit ''displayName'', JStr (lit ''Jane Doe''))]))"
    by (simp add: run_defs)
  have b: "sent fresh = []" by (simp add: fresh_def)
  have c: "sent (snd (process_pages_from_urls ?E
           [lit ''https://h/wiki/pages/1'', lit ''https://h/wiki/pages/1''] fresh))
       = [Get_page (page_url (lit ''https://h/wiki'') (lit ''1'')),
          Get_user (JStr (lit ''u1'')) (lit ''https://h/wiki/rest/api/user?accountId=u1''),
          Get_page (page_url (lit ''https://h/wiki'') (lit ''1''))]"
    by (simp add: run_defs)
  show ?thesis
    by (intro conjI c
          lookups_per_account_id [THEN conjunct1, THEN mp, OF a]
          lookups_per_account_id [THEN conjunct2, THEN mp, OF b])
qed

text \<open>
  C1 as stated fails: against a service that answers 404, two calls with the same account
  id and an empty cache issue two requests.
\<close>

theorem second_call_looks_up_again:
  "sent (snd (get_display_name nobody (JStr (lit ''u1'')) (lit ''https://h/wiki'')
           (snd (get_display_name nobody (JStr (lit ''u1'')) (lit ''https://h/wiki'') fresh))))
     = [Get_user (JStr (lit ''u1'')) (lit ''https://h/wiki/rest/api/user?accountId=u1''),
        Get_user (JStr (lit ''u1'')) (lit ''https://h/wiki/rest/api/user?accountId=u1'')]
   \<and> cache fresh = Map.empty"
  by (simp add: run_defs)

end
